theory Spec2Isabelle
  imports Main "HOL-Library.Word"
begin

unbundle bit_operations_syntax

section \<open>The cooperative scheduler (xen/sched.c, include/mini-os/sched.h)\<close>

subsection \<open>Thread descriptors and the scheduler's globals\<close>

text \<open>
  A \<^verbatim>\<open>struct thread *\<close> is an address; the descriptors live in a store indexed by
  address, so that two pointers to one thread alias as they do in C. The fields kept are
  the ones the scheduler reads or writes: \<^verbatim>\<open>name\<close> (here \<open>thread_name\<close>),
  \<^verbatim>\<open>flags\<close> (uint32_t), \<^verbatim>\<open>wakeup_time\<close>, \<^verbatim>\<open>lwp\<close> and \<^verbatim>\<open>cookie\<close> (pointers:
  \<open>None\<close> is NULL). The stack and the machine context belong to the architecture layer.
\<close>

type_synonym tid = nat

text \<open>
  Modelled from the spec: \<^verbatim>\<open>mini-os/time.h\<close> (the type \<^verbatim>\<open>s_time_t\<close> and the macros
  \<^verbatim>\<open>NOW\<close>, \<^verbatim>\<open>SECONDS\<close>, \<^verbatim>\<open>MILLISECS\<close>) is not among the sources. The spec gives times as
  monotonic nanoseconds, ten seconds as \<open>now + 10 s\<close> and a sleep of \<open>ms\<close> milliseconds as
  \<open>ms * 10^6\<close> ns. Times are integers here; a reading of the clock is an input.
\<close>

type_synonym s_time_t = int

definition SECONDS :: "int \<Rightarrow> s_time_t" where
  "SECONDS s = s * 1000000000"

definition MILLISECS :: "32 word \<Rightarrow> s_time_t" where
  "MILLISECS ms = uint ms * 1000000"

record thread =
  thread_name :: string
  flags :: "32 word"
  wakeup_time :: s_time_t
  lwp :: "nat option"
  cookie :: "nat option"

definition RUNNABLE_FLAG :: "32 word" where "RUNNABLE_FLAG = 0x00000001"
definition THREAD_MUSTJOIN :: "32 word" where "THREAD_MUSTJOIN = 0x00000002"
definition THREAD_JOINED :: "32 word" where "THREAD_JOINED = 0x00000004"
definition THREAD_EXTSTACK :: "32 word" where "THREAD_EXTSTACK = 0x00000008"
definition THREAD_TIMEDOUT :: "32 word" where "THREAD_TIMEDOUT = 0x00000010"

definition is_runnable :: "thread \<Rightarrow> bool" where
  "is_runnable th = (flags th AND RUNNABLE_FLAG \<noteq> 0)"

definition set_runnable :: "thread \<Rightarrow> thread" where
  "set_runnable th = th\<lparr>flags := flags th OR RUNNABLE_FLAG\<rparr>"

definition clear_runnable :: "thread \<Rightarrow> thread" where
  "clear_runnable th = th\<lparr>flags := flags th AND NOT RUNNABLE_FLAG\<rparr>"

definition timed_out :: "thread \<Rightarrow> bool" where
  "timed_out th = (flags th AND THREAD_TIMEDOUT \<noteq> 0)"

text \<open>
  The globals of sched.c: the store of descriptors, the run list \<^verbatim>\<open>thread_list\<close>, the list
  \<^verbatim>\<open>exited_threads\<close>, the join wait queue (pairs \<^verbatim>\<open>(jw_thread, jw_wanted)\<close>), and the
  running thread (\<^verbatim>\<open>get_current()\<close>). \<open>domain_blocks\<close> records the deadlines handed to
  \<^verbatim>\<open>block_domain\<close>, most recent last.
\<close>

record sched =
  threads :: "tid \<Rightarrow> thread"
  thread_list :: "tid list"
  exited_threads :: "tid list"
  joinwq :: "(tid \<times> tid) list"
  current :: tid
  domain_blocks :: "s_time_t list"

definition upd_thread :: "tid \<Rightarrow> (thread \<Rightarrow> thread) \<Rightarrow> sched \<Rightarrow> sched" where
  "upd_thread t f s = s\<lparr>threads := (threads s)(t := f (threads s t))\<rparr>"

subsection \<open>wake, block, create\_thread\<close>

text \<open>\<^verbatim>\<open>wake\<close>: \<^verbatim>\<open>thread->wakeup_time = 0LL; set_runnable(thread);\<close>\<close>

definition wake_thread :: "thread \<Rightarrow> thread" where
  "wake_thread th = set_runnable (th\<lparr>wakeup_time := 0\<rparr>)"

definition wake :: "tid \<Rightarrow> sched \<Rightarrow> sched" where
  "wake t s = upd_thread t wake_thread s"

text \<open>\<^verbatim>\<open>block\<close>: \<^verbatim>\<open>thread->wakeup_time = 0LL; clear_runnable(thread);\<close>\<close>

definition block_thread :: "thread \<Rightarrow> thread" where
  "block_thread th = clear_runnable (th\<lparr>wakeup_time := 0\<rparr>)"

definition block :: "tid \<Rightarrow> sched \<Rightarrow> sched" where
  "block t s = upd_thread t block_thread s"

text \<open>
  \<^verbatim>\<open>create_thread\<close>: \<^verbatim>\<open>arch_create_thread\<close> allocates the descriptor; its address \<open>t\<close>
  and the fields it filled in (\<open>th0\<close>) are inputs. The function then clears the flags and
  the wakeup time, sets \<^verbatim>\<open>lwp\<close> to NULL, stores the cookie, marks the thread runnable and
  appends it to the run list.
\<close>

definition create_thread :: "tid \<Rightarrow> thread \<Rightarrow> nat option \<Rightarrow> sched \<Rightarrow> tid \<times> sched" where
  "create_thread t th0 ck s =
     (let th = set_runnable (th0\<lparr>flags := 0, wakeup_time := 0, lwp := None, cookie := ck\<rparr>)
      in (t, s\<lparr>threads := (threads s)(t := th), thread_list := thread_list s @ [t]\<rparr>))"

subsection \<open>schedule\<close>

text \<open>
  The body of \<^verbatim>\<open>TAILQ_FOREACH_SAFE(thread, &thread_list, thread_list, tmp)\<close> in
  \<^verbatim>\<open>schedule\<close>, as a recursion over the part of the run list not yet visited. A thread
  that is not runnable and has a wakeup time other than 0 is either expired
  (\<^verbatim>\<open>thread->flags |= THREAD_TIMEDOUT; wake(thread);\<close>) or lowers \<^verbatim>\<open>min_wakeup_time\<close>.
  A thread that is runnable after that becomes \<^verbatim>\<open>next\<close>, is unlinked and appended to the
  tail, and the loop breaks. The result is \<^verbatim>\<open>next\<close> (\<open>None\<close> is NULL), the state and
  \<^verbatim>\<open>min_wakeup_time\<close>.
\<close>

fun scan :: "s_time_t \<Rightarrow> tid list \<Rightarrow> sched \<Rightarrow> s_time_t \<Rightarrow> tid option \<times> sched \<times> s_time_t" where
  "scan now [] s mw = (None, s, mw)"
| "scan now (t # ts) s mw =
     (let (s1, mw1) =
        (if \<not> is_runnable (threads s t) \<and> wakeup_time (threads s t) \<noteq> 0 then
           (if wakeup_time (threads s t) \<le> now then
              (wake t (upd_thread t (\<lambda>th. th\<lparr>flags := flags th OR THREAD_TIMEDOUT\<rparr>) s), mw)
            else if wakeup_time (threads s t) < mw then (s, wakeup_time (threads s t))
            else (s, mw))
         else (s, mw))
      in if is_runnable (threads s1 t) then
           (Some t, s1\<lparr>thread_list := remove1 t (thread_list s1) @ [t]\<rparr>, mw1)
         else scan now ts s1 mw1)"

text \<open>
  One turn of the \<^verbatim>\<open>do { ... } while(1)\<close> loop up to \<^verbatim>\<open>if (next) break;\<close>: \<open>now\<close> is
  the value \<^verbatim>\<open>NOW()\<close> returned, \<^verbatim>\<open>min_wakeup_time\<close> starts at \<^verbatim>\<open>now + SECONDS(10)\<close>.
\<close>

definition schedule_pass :: "s_time_t \<Rightarrow> sched \<Rightarrow> tid option \<times> sched \<times> s_time_t" where
  "schedule_pass now s = scan now (thread_list s) s (now + SECONDS 10)"

text \<open>
  \<^verbatim>\<open>block_domain\<close> and \<^verbatim>\<open>force_evtchn_callback\<close> belong to the hypervisor layer. The
  first is recorded with its deadline. The second runs the pending event handlers, which
  reach the scheduler through \<^verbatim>\<open>wake\<close>: the threads they wake are an input.
\<close>

definition block_domain :: "s_time_t \<Rightarrow> sched \<Rightarrow> sched" where
  "block_domain until s = s\<lparr>domain_blocks := domain_blocks s @ [until]\<rparr>"

definition force_evtchn_callback :: "tid list \<Rightarrow> sched \<Rightarrow> sched" where
  "force_evtchn_callback ws s = fold wake ws s"

text \<open>
  The \<^verbatim>\<open>do { ... } while(1)\<close> loop. What the world contributes to each turn is a pair:
  the reading of \<^verbatim>\<open>NOW()\<close> and the threads woken by the event handlers if the turn ends
  in \<^verbatim>\<open>force_evtchn_callback\<close>. The loop runs on a list of such pairs; \<open>None\<close> says that
  the loop is still turning when the list ends.
\<close>

fun schedule_select :: "(s_time_t \<times> tid list) list \<Rightarrow> sched \<Rightarrow> (tid \<times> sched) option" where
  "schedule_select [] s = None"
| "schedule_select ((now, ws) # w) s =
     (case schedule_pass now s of
        (Some next, s1, mw) \<Rightarrow> Some (next, s1)
      | (None, s1, mw) \<Rightarrow> schedule_select w (force_evtchn_callback ws (block_domain mw s1)))"

text \<open>
  The loop over \<^verbatim>\<open>exited_threads\<close> at the end of \<^verbatim>\<open>schedule\<close>: every thread other than
  \<^verbatim>\<open>prev\<close> is unlinked and freed.
\<close>

definition reap :: "tid \<Rightarrow> sched \<Rightarrow> sched" where
  "reap prev s = s\<lparr>exited_threads := filter (\<lambda>t. t = prev) (exited_threads s)\<rparr>"

datatype fault = BUG | Still_idle

text \<open>
  \<^verbatim>\<open>schedule\<close> as the calling thread sees it. \<open>in_callback\<close> and \<open>irq_off\<close> are the two
  conditions checked on entry (\<^verbatim>\<open>BUG()\<close> stops the system). If another thread is chosen,
  \<^verbatim>\<open>switch_threads\<close> returns only when the caller is chosen again: \<open>resume\<close> is what the rest
  of the system does to the scheduler's data in between.
\<close>

definition schedule ::
  "bool \<Rightarrow> bool \<Rightarrow> (s_time_t \<times> tid list) list \<Rightarrow> (sched \<Rightarrow> sched) \<Rightarrow> sched \<Rightarrow> fault + sched" where
  "schedule in_callback irq_off w resume s =
     (let prev = current s in
      if in_callback then Inl BUG
      else if irq_off then Inl BUG
      else case schedule_select w s of
             None \<Rightarrow> Inl Still_idle
           | Some (next, s1) \<Rightarrow>
               Inr (reap prev
                 (if prev \<noteq> next then (resume (s1\<lparr>current := next\<rparr>))\<lparr>current := prev\<rparr>
                  else s1)))"

subsection \<open>dosleep, msleep, absmsleep\<close>

text \<open>\<^verbatim>\<open>dosleep\<close> up to its call of \<^verbatim>\<open>schedule\<close>, and from there to its return.\<close>

definition dosleep_enter :: "tid \<Rightarrow> s_time_t \<Rightarrow> sched \<Rightarrow> sched" where
  "dosleep_enter t wakeuptime s =
     upd_thread t (\<lambda>th. clear_runnable
       ((th\<lparr>wakeup_time := wakeuptime\<rparr>)\<lparr>flags := flags th AND NOT THREAD_TIMEDOUT\<rparr>)) s"

definition dosleep_leave :: "tid \<Rightarrow> sched \<Rightarrow> int \<times> sched" where
  "dosleep_leave t s =
     (let rv = (if flags (threads s t) AND THREAD_TIMEDOUT \<noteq> 0 then 1 else 0)
      in (rv, upd_thread t (\<lambda>th. th\<lparr>flags := flags th AND NOT THREAD_TIMEDOUT\<rparr>) s))"

text \<open>
  \<^verbatim>\<open>dosleep\<close> runs with events enabled: between its stores and the masking of events in
  \<^verbatim>\<open>schedule\<close> the hypervisor can deliver pending events. Their handlers reach the
  scheduler through \<^verbatim>\<open>wake\<close>; the threads they wake (\<open>ev\<close>) are an input.
\<close>

definition hypervisor_callback :: "tid list \<Rightarrow> sched \<Rightarrow> sched" where
  "hypervisor_callback ev s = fold wake ev s"




text \<open>
  \<^verbatim>\<open>rumpuser_clock_sleep\<close> (rumphyper\_base.c), case \<^verbatim>\<open>RUMPUSER_CLOCK_ABSMONO\<close>, up to its
  call of \<^verbatim>\<open>schedule\<close>. The sum \<^verbatim>\<open>sec * (1000*1000*1000ULL) + nsec\<close> is computed in
  unsigned 64-bit arithmetic, which wraps, and stored into the signed \<^verbatim>\<open>wakeup_time\<close>:
  \<open>to_s_time\<close> is the value of the low 64 bits read as two's complement.
\<close>

definition to_s_time :: "int \<Rightarrow> s_time_t" where
  "to_s_time x = (x + 2 ^ 63) mod 2 ^ 64 - 2 ^ 63"

definition clock_sleep_absmono_enter :: "tid \<Rightarrow> int \<Rightarrow> int \<Rightarrow> sched \<Rightarrow> sched" where
  "clock_sleep_absmono_enter t sec nsec s =
     upd_thread t (\<lambda>th. clear_runnable
       (th\<lparr>wakeup_time := to_s_time (sec * 1000000000 + nsec)\<rparr>)) s"

subsection \<open>exit\_thread and join\_thread\<close>

text \<open>
  Both functions call \<^verbatim>\<open>schedule\<close> inside loops; they are given by the stretches of code
  between two calls. \<open>exit_thread_gate\<close> is one turn of the \<^verbatim>\<open>while (thread->flags &
  THREAD_MUSTJOIN)\<close> loop up to \<^verbatim>\<open>schedule()\<close>; \<open>exit_thread_unlink\<close> is the code after
  the loop. \<open>join_thread_park\<close> and \<open>join_thread_unpark\<close> are the two halves of the loop
  body of \<^verbatim>\<open>join_thread\<close>, \<open>join_thread_finish\<close> the code after it.
\<close>

definition exit_thread_gate :: "tid \<Rightarrow> sched \<Rightarrow> sched" where
  "exit_thread_gate t s =
     (let s1 = upd_thread t (\<lambda>th. th\<lparr>flags := flags th OR THREAD_JOINED\<rparr>) s;
          s2 = (case find (\<lambda>jw. snd jw = t) (joinwq s1) of
                  Some jw \<Rightarrow> wake (fst jw) s1
                | None \<Rightarrow> s1)
      in block t s2)"

definition exit_thread_unlink :: "tid \<Rightarrow> sched \<Rightarrow> sched" where
  "exit_thread_unlink t s =
     (let s1 = s\<lparr>thread_list := remove1 t (thread_list s)\<rparr>;
          s2 = upd_thread t clear_runnable s1
      in s2\<lparr>exited_threads := t # exited_threads s2\<rparr>)"

definition join_thread_park :: "tid \<Rightarrow> tid \<Rightarrow> sched \<Rightarrow> sched" where
  "join_thread_park t joinable s = block t (s\<lparr>joinwq := joinwq s @ [(t, joinable)]\<rparr>)"

definition join_thread_unpark :: "tid \<Rightarrow> tid \<Rightarrow> sched \<Rightarrow> sched" where
  "join_thread_unpark t joinable s = s\<lparr>joinwq := remove1 (t, joinable) (joinwq s)\<rparr>"

definition join_thread_finish :: "tid \<Rightarrow> sched \<Rightarrow> sched" where
  "join_thread_finish joinable s =
     wake joinable (upd_thread joinable (\<lambda>th. th\<lparr>flags := flags th AND NOT THREAD_MUSTJOIN\<rparr>) s)"

subsection \<open>The scheduler as a transition system\<close>

text \<open>
  The scheduler is cooperative: between two calls of \<^verbatim>\<open>schedule\<close> the running thread
  executes alone. \<open>thread_op\<close> lists what the running thread can do to the scheduler's
  data without switching; \<open>sched_step\<close> adds the turns of the loop in \<^verbatim>\<open>schedule\<close>: a
  turn that chooses a thread and switches to it, and a turn that finds none, blocks the
  domain and runs the event handlers.
\<close>

inductive thread_op :: "sched \<Rightarrow> sched \<Rightarrow> bool" where
  op_create: "thread_op s (snd (create_thread t th0 ck s))"
| op_wake: "thread_op s (wake t s)"
| op_block: "thread_op s (block t s)"
| op_dosleep_enter: "thread_op s (dosleep_enter (current s) wt s)"
| op_dosleep_leave: "thread_op s (snd (dosleep_leave (current s) s))"
| op_clock_sleep: "thread_op s (clock_sleep_absmono_enter (current s) sec nsec s)"
| op_exit_gate: "thread_op s (exit_thread_gate (current s) s)"
| op_exit_unlink: "thread_op s (exit_thread_unlink (current s) s)"
| op_join_park: "thread_op s (join_thread_park (current s) j s)"
| op_join_unpark: "thread_op s (join_thread_unpark (current s) j s)"
| op_join_finish: "thread_op s (join_thread_finish j s)"
| op_reap: "thread_op s (reap (current s) s)"


subsection \<open>The invariant and the course of a sleep\<close>

text \<open>
  The invariant of the thread descriptors: a runnable thread has no wakeup time.
\<close>

definition thread_ok :: "thread \<Rightarrow> bool" where
  "thread_ok th = (is_runnable th \<longrightarrow> wakeup_time th = 0)"


text \<open>
  The course of a sleep. \<open>slept th s s1\<close>: thread \<open>th\<close> has called \<^verbatim>\<open>schedule\<close> in state
  \<open>s\<close> and has not been chosen since; the system has reached \<open>s1\<close>. In between, passes
  of the selection loop found no thread (the domain was blocked and event handlers ran)
  or chose another thread, the threads that ran did what a running thread can do, and
  event handlers woke threads.
\<close>

inductive slept :: "tid \<Rightarrow> sched \<Rightarrow> sched \<Rightarrow> bool" for th s where
  slept_start: "slept th s s"
| slept_idle: "slept th s s1 \<Longrightarrow> schedule_pass now s1 = (None, s2, mw) \<Longrightarrow>
     slept th s (force_evtchn_callback ws (block_domain mw s2))"
| slept_switch: "slept th s s1 \<Longrightarrow> schedule_pass now s1 = (Some u, s2, mw) \<Longrightarrow> u \<noteq> th \<Longrightarrow>
     slept th s (s2\<lparr>current := u\<rparr>)"
| slept_other: "slept th s s1 \<Longrightarrow> current s1 \<noteq> th \<Longrightarrow> thread_op s1 s2 \<Longrightarrow> slept th s s2"
| slept_event: "slept th s s1 \<Longrightarrow> slept th s (wake t s1)"

text \<open>
  \<open>entered ev wt s\<close> is the state in which \<^verbatim>\<open>dosleep\<close>, called in \<open>s\<close> with wakeup time
  \<open>wt\<close>, calls \<^verbatim>\<open>schedule\<close>. \<open>resumed th now s1\<close> is the state in which \<^verbatim>\<open>schedule\<close>
  returns to thread \<open>th\<close> when the pass that chose it ran at time \<open>now\<close> in state \<open>s1\<close>:
  the state that pass left, with \<open>th\<close> running and the exited threads reaped.
\<close>

definition entered :: "tid list \<Rightarrow> s_time_t \<Rightarrow> sched \<Rightarrow> sched" where
  "entered ev wt s = hypervisor_callback ev (dosleep_enter (current s) wt s)"

definition resumed :: "tid \<Rightarrow> s_time_t \<Rightarrow> sched \<Rightarrow> sched" where
  "resumed th now s1 = reap th ((fst (snd (schedule_pass now s1)))\<lparr>current := th\<rparr>)"

section \<open>Block devices (rumphyper\_base.c)\<close>

subsection \<open>Constants and state\<close>

text \<open>
  The error numbers (\<^verbatim>\<open>errno.h\<close>), the open and bio flags (\<^verbatim>\<open>rumpuser.h\<close>) and
  \<^verbatim>\<open>O_RDWR\<close> (\<^verbatim>\<open>fcntl.h\<close>) come from headers that are not among the sources; their
  values are parameters of the functions below. C's \<^verbatim>\<open>int\<close> is read as an integer: the
  counters stay far from the limits of a 32-bit \<^verbatim>\<open>int\<close>, and \<^verbatim>\<open>fd - BLKFDOFF\<close> overflows
  only for the 64 lowest values of \<^verbatim>\<open>fd\<close>, where C leaves the behaviour undefined.
\<close>

record hdr =
  ENXIO :: int
  EIO :: int
  EROFS :: int
  EBADF :: int
  RUMPUSER_OPEN_ACCMODE :: int
  RUMPUSER_OPEN_WRONLY :: int
  RUMPUSER_OPEN_RDWR :: int
  RUMPUSER_OPEN_BIO :: int
  RUMPUSER_BIO_READ :: int
  O_RDWR :: int

definition NBLKDEV :: int where "NBLKDEV = 10"
definition BLKFDOFF :: int where "BLKFDOFF = 64"

text \<open>
  A \<^verbatim>\<open>struct blkfront_dev *\<close> is an address (\<open>None\<close> is NULL). Of \<^verbatim>\<open>struct
  blkfront_info\<close> the code reads \<^verbatim>\<open>sectors\<close>, \<^verbatim>\<open>sector_size\<close> and \<^verbatim>\<open>mode\<close>. A request
  record (\<^verbatim>\<open>struct biocb\<close>) carries the slot, the callback and its argument, and the
  fields of the aio control block that the code fills in.
\<close>

type_synonym handle = nat

record blkfront_info =
  info_sectors :: int
  info_sector_size :: int
  info_mode :: int

record biocb =
  bio_num :: int
  bio_done :: nat
  bio_arg :: nat
  aio_dev :: "handle option"
  aio_buf :: nat
  aio_nbytes :: nat
  aio_offset :: int

text \<open>Calls that leave the file, in the order they are made.\<close>

datatype call =
    Init_blkfront int
  | Shutdown_blkfront "handle option"
  | Blkfront_aio_read biocb
  | Blkfront_aio_write biocb
  | Create_thread_biopoll
  | Cv_signal
  | Biodone nat nat nat int

text \<open>
  The file's static data. The arrays are indexed by C \<^verbatim>\<open>int\<close>; the slots are the
  indices from 0 up to \<open>NBLKDEV\<close>. \<open>bio_mtx_held\<close> says whether \<^verbatim>\<open>bio_mtx\<close> is held.
\<close>

record blk =
  blkdevs :: "int \<Rightarrow> handle option"
  blkinfos :: "int \<Rightarrow> blkfront_info"
  blkopen :: "int \<Rightarrow> int"
  blkdev_outstanding :: "int \<Rightarrow> int"
  bio_outstanding_total :: int
  bio_mtx_held :: bool
  bio_inited :: bool
  calls :: "call list"

subsection \<open>Opening and closing\<close>

text \<open>
  \<^verbatim>\<open>devopen\<close>. The backend is an input: \<open>backend devnum\<close> is what \<^verbatim>\<open>init_blkfront\<close>
  returns for the path \<^verbatim>\<open>device/vbd/<devnum>\<close>, the handle and the info it fills in, or
  \<open>None\<close> for NULL.
\<close>

definition devopen ::
  "hdr \<Rightarrow> (int \<Rightarrow> (handle \<times> blkfront_info) option) \<Rightarrow> int \<Rightarrow> blk \<Rightarrow> int \<times> blk" where
  "devopen h backend num st =
     (let devnum = 768 + push_bit 6 num in
      if blkopen st num \<noteq> 0 then
        (1, st\<lparr>blkopen := (blkopen st)(num := blkopen st num + 1)\<rparr>)
      else
        let st1 = st\<lparr>calls := calls st @ [Init_blkfront devnum]\<rparr> in
        case backend devnum of
          Some (dev, info) \<Rightarrow>
            (0, st1\<lparr>blkdevs := (blkdevs st1)(num := Some dev),
                     blkinfos := (blkinfos st1)(num := info),
                     blkopen := (blkopen st1)(num := 1)\<rparr>)
        | None \<Rightarrow> (EIO h, st1\<lparr>blkdevs := (blkdevs st1)(num := None)\<rparr>))"

text \<open>
  \<^verbatim>\<open>devname2num\<close>. The name is the content of the C string. \<^verbatim>\<open>strncmp(name, "blk", 3)
  != 0\<close> says that the first three characters are not \<^verbatim>\<open>blk\<close>; \<^verbatim>\<open>*p\<close> is the last
  character. A \<^verbatim>\<open>char\<close> is read as unsigned; read as signed, the characters from 128 on
  give a negative \<^verbatim>\<open>num\<close> and are rejected as well.
\<close>

definition devname2num :: "string \<Rightarrow> int" where
  "devname2num name =
     (if take 3 name \<noteq> ''blk'' \<or> length name \<noteq> 4 then - 1
      else
        let p = name ! (length name - 1);
            num = of_char p - of_char (CHR ''0'')
        in if num < 0 \<or> num \<ge> NBLKDEV then - 1 else num)"

text \<open>
  \<^verbatim>\<open>rumpuser_open\<close>. The result is the return value, the value stored through
  \<^verbatim>\<open>fdp\<close> (\<open>None\<close>: nothing is stored) and the state.
\<close>

definition rumpuser_open ::
  "hdr \<Rightarrow> (int \<Rightarrow> (handle \<times> blkfront_info) option) \<Rightarrow> string \<Rightarrow> int \<Rightarrow> blk
     \<Rightarrow> int \<times> int option \<times> blk" where
  "rumpuser_open h backend name mode st =
     (if mode AND RUMPUSER_OPEN_BIO h = 0 \<or> devname2num name = - 1 then (ENXIO h, None, st)
      else
        let num = devname2num name;
            (rv, st1) = devopen h backend num st
        in if rv \<noteq> 0 then (rv, None, st1)
           else
             let acc = mode AND RUMPUSER_OPEN_ACCMODE h
             in if (acc = RUMPUSER_OPEN_WRONLY h \<or> acc = RUMPUSER_OPEN_RDWR h) \<and>
                   info_mode (blkinfos st1 num) \<noteq> O_RDWR h
                then (EROFS h, None, st1)
                else (0, Some (BLKFDOFF + num), st1))"

text \<open>\<^verbatim>\<open>shutdown_blkfront\<close> belongs to the backend; the call is recorded.\<close>

definition shutdown_blkfront :: "handle option \<Rightarrow> blk \<Rightarrow> blk" where
  "shutdown_blkfront dev st = st\<lparr>calls := calls st @ [Shutdown_blkfront dev]\<rparr>"

definition rumpuser_close :: "hdr \<Rightarrow> int \<Rightarrow> blk \<Rightarrow> int \<times> blk" where
  "rumpuser_close h fd st =
     (let rfd = fd - BLKFDOFF in
      if rfd < 0 \<or> rfd + 1 > NBLKDEV then (EBADF h, st)
      else
        let st1 = st\<lparr>blkopen := (blkopen st)(rfd := blkopen st rfd - 1)\<rparr>
        in if blkopen st1 rfd = 0 then
             let toclose = blkdevs st1 rfd;
                 st2 = st1\<lparr>blkdevs := (blkdevs st1)(rfd := None)\<rparr>
             in (0, shutdown_blkfront toclose st2)
           else (0, st1))"

subsection \<open>Submitting and completing block I/O\<close>

text \<open>
  \<^verbatim>\<open>rumpuser_bio\<close> and \<^verbatim>\<open>biocomp\<close> are given statement by statement, so that the states
  in the middle of the functions, with \<^verbatim>\<open>bio_mtx\<close> held or not, can be spoken about. A
  statement is a state change (\<open>Do\<close>) or a conditional (\<open>If\<close>); \<open>trace p st\<close> lists the
  states that the statements \<open>p\<close> go through from \<open>st\<close>, the first state included and the
  state after the last statement at the end.
\<close>

datatype 's stmt = Do "'s \<Rightarrow> 's" | If "'s \<Rightarrow> bool" "'s stmt list" "'s stmt list"

fun trace :: "'s stmt list \<Rightarrow> 's \<Rightarrow> 's list" where
  "trace [] st = [st]"
| "trace (Do f # p) st = st # trace p (f st)"
| "trace (If c p1 p2 # p) st = (if c st then trace (p1 @ p) st else trace (p2 @ p) st)"

definition rumpuser_mutex_enter :: "blk \<Rightarrow> blk" where
  "rumpuser_mutex_enter st = st\<lparr>bio_mtx_held := True\<rparr>"

definition rumpuser_mutex_exit :: "blk \<Rightarrow> blk" where
  "rumpuser_mutex_exit st = st\<lparr>bio_mtx_held := False\<rparr>"

definition record_call :: "call \<Rightarrow> blk \<Rightarrow> blk" where
  "record_call c st = st\<lparr>calls := calls st @ [c]\<rparr>"

text \<open>
  The statements of \<^verbatim>\<open>rumpuser_bio\<close>: the lazy start of the polling thread (under the
  mutex, with the flag checked twice), the submission of the request to the backend, and
  the accounting under the mutex.
\<close>

definition rumpuser_bio_steps ::
  "hdr \<Rightarrow> int \<Rightarrow> int \<Rightarrow> nat \<Rightarrow> nat \<Rightarrow> int \<Rightarrow> nat \<Rightarrow> nat \<Rightarrow> blk stmt list" where
  "rumpuser_bio_steps h fd op data dlen off biodone donearg =
     (let num = fd - BLKFDOFF;
          bio = (\<lambda>st. \<lparr>bio_num = num, bio_done = biodone, bio_arg = donearg,
                 aio_dev = blkdevs st num, aio_buf = data, aio_nbytes = dlen,
                 aio_offset = off\<rparr>)
      in [If (\<lambda>st. \<not> bio_inited st)
            [Do rumpuser_mutex_enter,
             If (\<lambda>st. \<not> bio_inited st)
               [Do (\<lambda>st. st\<lparr>bio_inited := True\<rparr>),
                Do rumpuser_mutex_exit,
                Do (record_call Create_thread_biopoll)]
               [Do rumpuser_mutex_exit]]
            [],
          Do (\<lambda>st. record_call (if op AND RUMPUSER_BIO_READ h \<noteq> 0 then Blkfront_aio_read (bio st)
                                  else Blkfront_aio_write (bio st)) st),
          Do rumpuser_mutex_enter,
          Do (\<lambda>st. st\<lparr>bio_outstanding_total := bio_outstanding_total st + 1\<rparr>),
          Do (\<lambda>st. st\<lparr>blkdev_outstanding :=
                    (blkdev_outstanding st)(num := blkdev_outstanding st num + 1)\<rparr>),
          Do (record_call Cv_signal),
          Do rumpuser_mutex_exit])"

definition rumpuser_bio ::
  "hdr \<Rightarrow> int \<Rightarrow> int \<Rightarrow> nat \<Rightarrow> nat \<Rightarrow> int \<Rightarrow> nat \<Rightarrow> nat \<Rightarrow> blk \<Rightarrow> blk" where
  "rumpuser_bio h fd op data dlen off biodone donearg st =
     last (trace (rumpuser_bio_steps h fd op data dlen off biodone donearg) st)"

text \<open>
  The statements of \<^verbatim>\<open>biocomp\<close>: the callback (with \<open>0, EIO\<close> on error, with the byte
  count and 0 otherwise), then the accounting under the mutex.
\<close>

definition biocomp_steps :: "hdr \<Rightarrow> biocb \<Rightarrow> int \<Rightarrow> blk stmt list" where
  "biocomp_steps h bio ret =
     (let num = bio_num bio
      in [If (\<lambda>st. ret \<noteq> 0)
            [Do (record_call (Biodone (bio_done bio) (bio_arg bio) 0 (EIO h)))]
            [Do (record_call (Biodone (bio_done bio) (bio_arg bio) (aio_nbytes bio) 0))],
          Do rumpuser_mutex_enter,
          Do (\<lambda>st. st\<lparr>bio_outstanding_total := bio_outstanding_total st - 1\<rparr>),
          Do (\<lambda>st. st\<lparr>blkdev_outstanding :=
                    (blkdev_outstanding st)(num := blkdev_outstanding st num - 1)\<rparr>),
          Do rumpuser_mutex_exit])"

definition biocomp :: "hdr \<Rightarrow> biocb \<Rightarrow> int \<Rightarrow> blk \<Rightarrow> blk" where
  "biocomp h bio ret st = last (trace (biocomp_steps h bio ret) st)"

text \<open>
  The accounting invariant: outside the mutex, the total is the sum of the slots'
  counters.
\<close>

definition bio_inv :: "blk \<Rightarrow> bool" where
  "bio_inv st =
     (\<not> bio_mtx_held st \<longrightarrow>
        bio_outstanding_total st = (\<Sum>i = 0..<NBLKDEV. blkdev_outstanding st i))"

subsection \<open>Concrete values used in the examples\<close>

text \<open>The values of NetBSD's headers.\<close>

definition hdr0 :: hdr where
  "hdr0 = \<lparr>ENXIO = 6, EIO = 5, EROFS = 30, EBADF = 9, RUMPUSER_OPEN_ACCMODE = 0x3,
     RUMPUSER_OPEN_WRONLY = 0x1, RUMPUSER_OPEN_RDWR = 0x2, RUMPUSER_OPEN_BIO = 0x10,
     RUMPUSER_BIO_READ = 0x1, O_RDWR = 0x2\<rparr>"

definition blk0 :: blk where
  "blk0 = \<lparr>blkdevs = (\<lambda>_. None),
     blkinfos = (\<lambda>_. \<lparr>info_sectors = 0, info_sector_size = 0, info_mode = 0\<rparr>),
     blkopen = (\<lambda>_. 0), blkdev_outstanding = (\<lambda>_. 0), bio_outstanding_total = 0,
     bio_mtx_held = False, bio_inited = False, calls = []\<rparr>"

text \<open>A backend whose device 768 (slot 0) is read-only and whose device 832 (slot 1) is read-write.\<close>

definition backend0 :: "int \<Rightarrow> (handle \<times> blkfront_info) option" where
  "backend0 devnum =
     (if devnum = 768 then Some (7, \<lparr>info_sectors = 100, info_sector_size = 512, info_mode = 0\<rparr>)
      else if devnum = 832 then Some (8, \<lparr>info_sectors = 100, info_sector_size = 512, info_mode = 2\<rparr>)
      else None)"

definition bio0 :: biocb where
  "bio0 = \<lparr>bio_num = 0, bio_done = 0, bio_arg = 0, aio_dev = None, aio_buf = 0,
     aio_nbytes = 512, aio_offset = 0\<rparr>"

section \<open>Concrete states used in the examples\<close>

definition th_a :: thread where
  "th_a = \<lparr>thread_name = ''a'', flags = 0x10, wakeup_time = 7, lwp = None, cookie = None\<rparr>"

definition th_b :: thread where
  "th_b = \<lparr>thread_name = ''b'', flags = 1, wakeup_time = 0, lwp = None, cookie = None\<rparr>"

definition s_ab :: sched where
  "s_ab = \<lparr>threads = (\<lambda>_. th_b)(0 := th_a), thread_list = [0, 1], exited_threads = [],
     joinwq = [], current = 1, domain_blocks = []\<rparr>"

definition th_c :: thread where
  "th_c = \<lparr>thread_name = ''c'', flags = 0, wakeup_time = 3, lwp = None, cookie = None\<rparr>"

definition s_acb :: sched where
  "s_acb = \<lparr>threads = ((\<lambda>_. th_b)(0 := th_a))(1 := th_c), thread_list = [0, 1, 2],
     exited_threads = [], joinwq = [], current = 2, domain_blocks = []\<rparr>"

definition s_ac :: sched where
  "s_ac = \<lparr>threads = ((\<lambda>_. th_b)(0 := th_a))(1 := th_c), thread_list = [0, 1],
     exited_threads = [], joinwq = [], current = 0, domain_blocks = []\<rparr>"






section \<open>Notions used to state the properties\<close>

text \<open>
  A thread is \<open>expired\<close> at \<open>now\<close> when it is not runnable and its wakeup time is set and
  not later than \<open>now\<close>; it is \<open>selectable\<close> when it is runnable or expired, that is,
  runnable once the selection loop has looked at it. \<open>timeout_wake\<close> is the wake by
  timeout in the spec's words: set \<open>timed_out\<close>, clear the wakeup time, set runnable.
  \<open>pending now s ts\<close> lists the wakeup times, among the threads \<open>ts\<close>, of the sleepers
  whose deadline lies strictly after \<open>now\<close>.
\<close>

definition expired :: "s_time_t \<Rightarrow> thread \<Rightarrow> bool" where
  "expired now th = (\<not> is_runnable th \<and> wakeup_time th \<noteq> 0 \<and> wakeup_time th \<le> now)"

definition selectable :: "s_time_t \<Rightarrow> thread \<Rightarrow> bool" where
  "selectable now th = (is_runnable th \<or> expired now th)"

definition timeout_wake :: "thread \<Rightarrow> thread" where
  "timeout_wake th =
     th\<lparr>wakeup_time := 0, flags := (flags th OR THREAD_TIMEDOUT) OR RUNNABLE_FLAG\<rparr>"

definition treat :: "s_time_t \<Rightarrow> thread \<Rightarrow> thread" where
  "treat now th = (if expired now th then timeout_wake th else th)"

definition pending :: "s_time_t \<Rightarrow> sched \<Rightarrow> tid list \<Rightarrow> s_time_t list" where
  "pending now s ts =
     map (\<lambda>t. wakeup_time (threads s t))
       (filter (\<lambda>t. \<not> is_runnable (threads s t) \<and> wakeup_time (threads s t) \<noteq> 0 \<and>
                     now < wakeup_time (threads s t)) ts)"

section \<open>Properties of the scheduler\<close>

subsection \<open>Flag arithmetic\<close>

lemma or_and_same: "(f OR m) AND m = (m::'a::len word)"
  by (simp add: bit_eq_iff bit_simps)

lemma and_not_and_same: "(f AND NOT m) AND m = (0::'a::len word)"
  by (simp add: bit_eq_iff bit_simps)

lemma or_and_other: "m1 AND m2 = 0 \<Longrightarrow> (f OR m1) AND m2 = f AND (m2::'a::len word)"
  by (simp add: bit.conj_disj_distrib2)

lemma and_not_and_other: "m1 AND m2 = 0 \<Longrightarrow> (f AND NOT m1) AND m2 = f AND (m2::'a::len word)"
  by (auto simp add: bit_eq_iff bit_simps)

lemma is_runnable_set_runnable [simp]: "is_runnable (set_runnable th)"
  by (simp add: is_runnable_def set_runnable_def or_and_same RUNNABLE_FLAG_def)

lemma is_runnable_clear_runnable [simp]: "\<not> is_runnable (clear_runnable th)"
  by (simp add: is_runnable_def clear_runnable_def and_not_and_same)

lemma is_runnable_wake_thread [simp]: "is_runnable (wake_thread th)"
  by (simp add: wake_thread_def)

lemma wakeup_time_wake_thread [simp]: "wakeup_time (wake_thread th) = 0"
  by (simp add: wake_thread_def set_runnable_def)

lemma wake_thread_idem [simp]: "wake_thread (wake_thread th) = wake_thread th"
  by (simp add: wake_thread_def set_runnable_def)

subsection \<open>wake\<close>

text \<open>
  Claim C10. For every thread \<open>t\<close>, \<open>wake t\<close> sets the wakeup time of \<open>t\<close> to 0 and makes
  it runnable; waking twice gives the same state as waking once; no other thread's
  descriptor changes; and the run list, the exited list, the join queue, the running
  thread and the record of domain blocks are untouched, so \<open>wake\<close> does not yield.
\<close>

theorem wake_idempotent:
  "wakeup_time (threads (wake t s) t) = 0 \<and>
   is_runnable (threads (wake t s) t) \<and>
   wake t (wake t s) = wake t s \<and>
   (\<forall>u. u \<noteq> t \<longrightarrow> threads (wake t s) u = threads s u) \<and>
   thread_list (wake t s) = thread_list s \<and>
   exited_threads (wake t s) = exited_threads s \<and>
   joinwq (wake t s) = joinwq s \<and>
   current (wake t s) = current s \<and>
   domain_blocks (wake t s) = domain_blocks s"
  by (simp add: wake_def upd_thread_def)

theorem wake_idempotent_witness:
  "wakeup_time (threads (wake 0 s_ab) 0) = 0 \<and>
   flags (threads (wake 0 s_ab) 0) = 0x11 \<and>
   wake 0 (wake 0 s_ab) = wake 0 s_ab \<and>
   threads (wake 0 s_ab) 1 = th_b \<and>
   current (wake 0 s_ab) = 1 \<and> thread_list (wake 0 s_ab) = [0, 1]"
  using wake_idempotent [of 0 s_ab]
  by (simp add: wake_def upd_thread_def s_ab_def th_a_def th_b_def wake_thread_def
      set_runnable_def RUNNABLE_FLAG_def)

subsection \<open>The selection loop\<close>

lemma threads_upd_thread [simp]:
  "threads (upd_thread t f s) u = (if u = t then f (threads s t) else threads s u)"
  by (simp add: upd_thread_def)

lemma upd_thread_fields [simp]:
  "thread_list (upd_thread t f s) = thread_list s"
  "exited_threads (upd_thread t f s) = exited_threads s"
  "joinwq (upd_thread t f s) = joinwq s"
  "current (upd_thread t f s) = current s"
  "domain_blocks (upd_thread t f s) = domain_blocks s"
  by (simp_all add: upd_thread_def)

lemma upd_thread_upd_thread [simp]:
  "upd_thread t g (upd_thread t f s) = upd_thread t (\<lambda>th. g (f th)) s"
  by (simp add: upd_thread_def)

lemma upd_thread_id: "f (threads s t) = threads s t \<Longrightarrow> upd_thread t f s = s"
  by (simp add: upd_thread_def)

lemma upd_thread_eqI: "f (threads s t) = g (threads s t) \<Longrightarrow> upd_thread t f s = upd_thread t g s"
  by (simp add: upd_thread_def)

lemma expire_eq:
  "wake t (upd_thread t (\<lambda>th. th\<lparr>flags := flags th OR THREAD_TIMEDOUT\<rparr>) s) = upd_thread t timeout_wake s"
  by (simp add: wake_def wake_thread_def set_runnable_def timeout_wake_def upd_thread_def)

lemma is_runnable_timeout_wake [simp]: "is_runnable (timeout_wake th)"
  by (simp add: timeout_wake_def is_runnable_def or_and_same RUNNABLE_FLAG_def)

lemma scan_step:
  "scan now (t # ts) s mw =
     (if selectable now (threads s t) then
        (Some t, (upd_thread t (treat now) s)\<lparr>thread_list := remove1 t (thread_list s) @ [t]\<rparr>, mw)
      else scan now ts s
        (if wakeup_time (threads s t) \<noteq> 0 \<and> wakeup_time (threads s t) < mw
         then wakeup_time (threads s t) else mw))"
  by (auto simp add: selectable_def expired_def treat_def expire_eq upd_thread_id
      intro!: arg_cong [where f = "\<lambda>s. thread_list_update _ s"] upd_thread_eqI)

lemma scan_none:
  "\<forall>t\<in>set ts. \<not> selectable now (threads s t) \<Longrightarrow>
   scan now ts s mw = (None, s, fold min (pending now s ts) mw)"
proof (induction ts arbitrary: mw)
  case Nil
  then show ?case by (simp add: pending_def)
next
  case (Cons t ts)
  then have ns: "\<not> selectable now (threads s t)" and rest: "\<forall>u\<in>set ts. \<not> selectable now (threads s u)"
    by simp_all
  from ns have fut: "wakeup_time (threads s t) \<noteq> 0 \<Longrightarrow> now < wakeup_time (threads s t)"
    and nr: "\<not> is_runnable (threads s t)"
    by (auto simp add: selectable_def expired_def)
  show ?case
    using ns nr fut Cons.IH [OF rest]
    by (auto simp add: scan_step pending_def min_def simp del: scan.simps)
qed

lemma scan_some:
  "\<forall>u\<in>set pre. \<not> selectable now (threads s u) \<Longrightarrow> selectable now (threads s t) \<Longrightarrow>
   scan now (pre @ t # post) s mw =
     (Some t, (upd_thread t (treat now) s)\<lparr>thread_list := remove1 t (thread_list s) @ [t]\<rparr>,
      fold min (pending now s pre) mw)"
proof (induction pre arbitrary: mw)
  case Nil
  then show ?case by (simp add: scan_step pending_def del: scan.simps)
next
  case (Cons u pre)
  then have ns: "\<not> selectable now (threads s u)" and rest: "\<forall>v\<in>set pre. \<not> selectable now (threads s v)"
    by simp_all
  from ns have fut: "wakeup_time (threads s u) \<noteq> 0 \<Longrightarrow> now < wakeup_time (threads s u)"
    and nr: "\<not> is_runnable (threads s u)"
    by (auto simp add: selectable_def expired_def)
  show ?case
    using ns nr fut Cons.IH [OF rest Cons.prems(2)]
    by (auto simp add: scan_step pending_def min_def simp del: scan.simps)
qed

lemma fold_min_Min: "fold min xs (m::int) = Min (insert m (set xs))"
  by (metis Min.set_eq_fold list.simps(15))

lemma split_first:
  "\<exists>x\<in>set xs. P x \<Longrightarrow>
   \<exists>pre t post. xs = pre @ t # post \<and> (\<forall>u\<in>set pre. \<not> P u) \<and> P t"
  by (metis split_list_first_prop)

lemma schedule_pass_some:
  assumes "thread_list s = pre @ t # post"
    and "\<forall>u\<in>set pre. \<not> selectable now (threads s u)"
    and "selectable now (threads s t)"
  shows "schedule_pass now s =
     (Some t, (upd_thread t (treat now) s)\<lparr>thread_list := pre @ post @ [t]\<rparr>,
      fold min (pending now s pre) (now + SECONDS 10))"
proof -
  have "t \<notin> set pre" using assms(2,3) by auto
  then have "remove1 t (pre @ t # post) = pre @ post"
    by (simp add: remove1_append)
  then show ?thesis
    using scan_some [OF assms(2,3), of post "now + SECONDS 10"] assms(1)
    by (simp add: schedule_pass_def)
qed

lemma schedule_pass_none:
  assumes "\<forall>u\<in>set (thread_list s). \<not> selectable now (threads s u)"
  shows "schedule_pass now s =
     (None, s, Min (insert (now + SECONDS 10) (set (pending now s (thread_list s)))))"
  using scan_none [OF assms, of "now + SECONDS 10"]
  by (simp add: schedule_pass_def fold_min_Min)

lemma schedule_pass_cases:
  obtains (none) "\<forall>u\<in>set (thread_list s). \<not> selectable now (threads s u)"
  | (some) pre t post where "thread_list s = pre @ t # post"
      "\<forall>u\<in>set pre. \<not> selectable now (threads s u)" "selectable now (threads s t)"
  using split_first [of "thread_list s" "\<lambda>u. selectable now (threads s u)"] by blast

lemma schedule_pass_None_iff:
  "fst (schedule_pass now s) = None \<longleftrightarrow> (\<forall>u\<in>set (thread_list s). \<not> selectable now (threads s u))"
proof (cases rule: schedule_pass_cases [of s now])
  case none
  then show ?thesis by (simp add: schedule_pass_none)
next
  case (some pre t post)
  then show ?thesis using schedule_pass_some [OF some] by auto
qed

lemmas flag_defs = RUNNABLE_FLAG_def THREAD_TIMEDOUT_def THREAD_MUSTJOIN_def THREAD_JOINED_def
lemmas thread_defs = is_runnable_def set_runnable_def clear_runnable_def timed_out_def
  wake_thread_def block_thread_def upd_thread_def wake_def block_def
lemmas spec_defs = expired_def selectable_def treat_def timeout_wake_def pending_def

text \<open>
  Claim C4. One selection pass over any run list. If \<open>t\<close> is the first thread of the list
  that is runnable or expired (\<open>pre\<close> are the threads before it, \<open>post\<close> the ones after),
  the pass selects \<open>t\<close>; if \<open>t\<close> was expired it now has \<open>timed_out\<close> set, wakeup time
  0 and is runnable, otherwise its descriptor is unchanged; no other descriptor changes;
  and the run list becomes \<open>pre @ post @ [t]\<close>: \<open>t\<close> at the tail, the others in their
  old order. If no thread of the list is runnable or expired, the pass selects none and
  changes nothing.
\<close>

theorem schedule_pass_round_robin:
  "((\<forall>u\<in>set pre. \<not> selectable now (threads s u)) \<and> selectable now (threads s t) \<and>
    thread_list s = pre @ t # post \<longrightarrow>
      fst (schedule_pass now s) = Some t \<and>
      thread_list (fst (snd (schedule_pass now s))) = pre @ post @ [t] \<and>
      threads (fst (snd (schedule_pass now s))) =
        (threads s)(t := if expired now (threads s t)
                         then (threads s t)\<lparr>wakeup_time := 0,
                                flags := (flags (threads s t) OR THREAD_TIMEDOUT) OR RUNNABLE_FLAG\<rparr>
                         else threads s t) \<and>
      is_runnable (threads (fst (snd (schedule_pass now s))) t) \<and>
      (expired now (threads s t) \<longrightarrow> timed_out (threads (fst (snd (schedule_pass now s))) t)) \<and>
      exited_threads (fst (snd (schedule_pass now s))) = exited_threads s \<and>
      joinwq (fst (snd (schedule_pass now s))) = joinwq s \<and>
      current (fst (snd (schedule_pass now s))) = current s \<and>
      domain_blocks (fst (snd (schedule_pass now s))) = domain_blocks s) \<and>
   ((\<forall>u\<in>set (thread_list s). \<not> selectable now (threads s u)) \<longrightarrow>
      fst (schedule_pass now s) = None \<and> fst (snd (schedule_pass now s)) = s)"
proof (intro conjI impI)
  assume "\<forall>u\<in>set (thread_list s). \<not> selectable now (threads s u)"
  then show "fst (schedule_pass now s) = None" "fst (snd (schedule_pass now s)) = s"
    by (simp_all add: schedule_pass_none)
next
  assume a: "(\<forall>u\<in>set pre. \<not> selectable now (threads s u)) \<and> selectable now (threads s t) \<and>
    thread_list s = pre @ t # post"
  then have eq: "schedule_pass now s =
     (Some t, (upd_thread t (treat now) s)\<lparr>thread_list := pre @ post @ [t]\<rparr>,
      fold min (pending now s pre) (now + SECONDS 10))"
    using schedule_pass_some by blast
  show "fst (schedule_pass now s) = Some t" by (simp add: eq)
  show "thread_list (fst (snd (schedule_pass now s))) = pre @ post @ [t]" by (simp add: eq)
  show "threads (fst (snd (schedule_pass now s))) =
        (threads s)(t := if expired now (threads s t)
                         then (threads s t)\<lparr>wakeup_time := 0,
                                flags := (flags (threads s t) OR THREAD_TIMEDOUT) OR RUNNABLE_FLAG\<rparr>
                         else threads s t)"
    by (simp add: eq upd_thread_def treat_def timeout_wake_def)
  show "is_runnable (threads (fst (snd (schedule_pass now s))) t)"
    using a by (auto simp add: eq treat_def selectable_def)
  show "exited_threads (fst (snd (schedule_pass now s))) = exited_threads s"
       "joinwq (fst (snd (schedule_pass now s))) = joinwq s"
       "current (fst (snd (schedule_pass now s))) = current s"
       "domain_blocks (fst (snd (schedule_pass now s))) = domain_blocks s"
    by (simp_all add: eq)
  assume "expired now (threads s t)"
  then show "timed_out (threads (fst (snd (schedule_pass now s))) t)"
    by (simp add: eq treat_def timeout_wake_def timed_out_def or_and_other or_and_same
        RUNNABLE_FLAG_def THREAD_TIMEDOUT_def)
qed

theorem schedule_pass_round_robin_witness:
  "\<not> selectable 5 (threads s_acb 0) \<and> selectable 5 (threads s_acb 1) \<and>
   thread_list s_acb = [0] @ 1 # [2] \<and>
   fst (schedule_pass 5 s_acb) = Some 1 \<and>
   thread_list (fst (snd (schedule_pass 5 s_acb))) = [0, 2, 1] \<and>
   threads (fst (snd (schedule_pass 5 s_acb))) 1 = th_c\<lparr>wakeup_time := 0, flags := 0x11\<rparr> \<and>
   threads (fst (snd (schedule_pass 5 s_acb))) 0 = th_a \<and>
   fst (schedule_pass 2 s_ac) = None \<and> fst (snd (schedule_pass 2 s_ac)) = s_ac"
  using schedule_pass_round_robin [of "[0]" 5 s_acb 1 "[2]"]
    schedule_pass_round_robin [of "[]" 2 s_ac 0 "[]"]
  by (simp add: s_acb_def s_ac_def th_a_def th_b_def th_c_def spec_defs thread_defs flag_defs)

text \<open>
  Claim C5. When a pass at time \<open>now\<close> finds no thread, \<open>min_wakeup_time\<close> is the least
  of \<open>now + 10 s\<close> and the wakeup times of the sleepers whose deadline lies after \<open>now\<close>;
  \<^verbatim>\<open>schedule\<close> hands it to \<^verbatim>\<open>block_domain\<close>, runs the event handlers and starts the next
  pass on the whole run list. The deadline lies after \<open>now\<close> and not after \<open>now + 10 s\<close>,
  and not before \<open>now + 5 s\<close> when every pending wakeup is at least that late.
\<close>

theorem schedule_idle_deadline:
  "fst (schedule_pass now s) = None \<longrightarrow>
     snd (schedule_pass now s) =
       (s, Min (insert (now + SECONDS 10) (set (pending now s (thread_list s))))) \<and>
     schedule_select ((now, ws) # w) s =
       schedule_select w (force_evtchn_callback ws
         (block_domain (Min (insert (now + SECONDS 10) (set (pending now s (thread_list s))))) s)) \<and>
     Min (insert (now + SECONDS 10) (set (pending now s (thread_list s)))) \<le> now + SECONDS 10 \<and>
     now < Min (insert (now + SECONDS 10) (set (pending now s (thread_list s)))) \<and>
     ((\<forall>x\<in>set (pending now s (thread_list s)). now + SECONDS 5 \<le> x) \<longrightarrow>
        now + SECONDS 5 \<le> Min (insert (now + SECONDS 10) (set (pending now s (thread_list s)))))"
proof (intro impI)
  assume "fst (schedule_pass now s) = None"
  then have ns: "\<forall>u\<in>set (thread_list s). \<not> selectable now (threads s u)"
    by (simp add: schedule_pass_None_iff)
  let ?D = "Min (insert (now + SECONDS 10) (set (pending now s (thread_list s))))"
  have eq: "schedule_pass now s = (None, s, ?D)"
    using ns by (rule schedule_pass_none)
  have fin: "finite (insert (now + SECONDS 10) (set (pending now s (thread_list s))))"
    by simp
  have fut: "\<forall>x\<in>set (pending now s (thread_list s)). now < x"
    by (auto simp add: pending_def)
  have "now < now + SECONDS 10" by (simp add: SECONDS_def)
  with fut have lo: "now < ?D"
    using fin by (subst Min_gr_iff) auto
  have hi: "?D \<le> now + SECONDS 10" by (rule Min_le) simp_all
  have five: "(\<forall>x\<in>set (pending now s (thread_list s)). now + SECONDS 5 \<le> x) \<longrightarrow> now + SECONDS 5 \<le> ?D"
  proof
    assume "\<forall>x\<in>set (pending now s (thread_list s)). now + SECONDS 5 \<le> x"
    moreover have "now + SECONDS 5 \<le> now + SECONDS 10" by (simp add: SECONDS_def)
    ultimately show "now + SECONDS 5 \<le> ?D"
      using fin by (subst Min_ge_iff) auto
  qed
  show "snd (schedule_pass now s) = (s, ?D) \<and>
     schedule_select ((now, ws) # w) s =
       schedule_select w (force_evtchn_callback ws (block_domain ?D s)) \<and>
     ?D \<le> now + SECONDS 10 \<and> now < ?D \<and>
     ((\<forall>x\<in>set (pending now s (thread_list s)). now + SECONDS 5 \<le> x) \<longrightarrow> now + SECONDS 5 \<le> ?D)"
    using lo hi five by (simp add: eq)
qed

theorem schedule_idle_deadline_witness:
  "fst (schedule_pass 2 s_ac) = None \<and>
   snd (schedule_pass 2 s_ac) = (s_ac, 3) \<and>
   schedule_select [(2, []), (4, [])] s_ac =
     Some (1, s_ac\<lparr>threads := (threads s_ac)(1 := th_c\<lparr>wakeup_time := 0, flags := 0x11\<rparr>),
                   thread_list := [0, 1], domain_blocks := [3]\<rparr>)"
  using schedule_idle_deadline [of 2 s_ac "[]" "[(4, [])]"]
  by (simp add: s_ac_def th_a_def th_b_def th_c_def spec_defs thread_defs flag_defs
      schedule_pass_def block_domain_def force_evtchn_callback_def SECONDS_def)

subsection \<open>The invariant: a runnable thread has no wakeup time\<close>

lemma flag_disjoint:
  "THREAD_TIMEDOUT AND RUNNABLE_FLAG = 0" "THREAD_JOINED AND RUNNABLE_FLAG = 0"
  "THREAD_MUSTJOIN AND RUNNABLE_FLAG = 0" "RUNNABLE_FLAG AND THREAD_TIMEDOUT = 0"
  "THREAD_JOINED AND THREAD_TIMEDOUT = 0" "THREAD_MUSTJOIN AND THREAD_TIMEDOUT = 0"
  by (simp_all add: flag_defs)



lemma is_runnable_wakeup_time_update [simp]:
  "is_runnable (th\<lparr>wakeup_time := w\<rparr>) = is_runnable th"
  by (simp add: is_runnable_def)

lemma thread_ok_wake [simp]: "thread_ok (wake_thread th)"
  by (simp add: thread_ok_def)

lemma thread_ok_not_runnable: "\<not> is_runnable th \<Longrightarrow> thread_ok th"
  by (simp add: thread_ok_def)

lemma thread_ok_block [simp]: "thread_ok (block_thread th)"
  by (simp add: thread_ok_not_runnable block_thread_def)

lemma thread_ok_clear [simp]: "thread_ok (clear_runnable th)"
  by (simp add: thread_ok_not_runnable)










lemma schedule_pass_SomeD:
  assumes "schedule_pass now s = (Some t, s', mw)"
  shows "selectable now (threads s t) \<and> t \<in> set (thread_list s) \<and>
         s' = (upd_thread t (treat now) s)\<lparr>thread_list := remove1 t (thread_list s) @ [t]\<rparr>"
proof (cases rule: schedule_pass_cases [of s now])
  case none
  then show ?thesis using assms by (simp add: schedule_pass_none)
next
  case (some pre u post)
  have "u \<notin> set pre" using some(2,3) by auto
  then have "remove1 u (thread_list s) = pre @ post"
    by (simp add: some(1) remove1_append)
  then show ?thesis using schedule_pass_some [OF some] assms some by auto
qed

lemma schedule_pass_NoneD:
  assumes "schedule_pass now s = (None, s', mw)"
  shows "s' = s \<and> (\<forall>u\<in>set (thread_list s). \<not> selectable now (threads s u)) \<and>
         mw = Min (insert (now + SECONDS 10) (set (pending now s (thread_list s))))"
proof -
  have "fst (schedule_pass now s) = None" using assms by simp
  then have ns: "\<forall>u\<in>set (thread_list s). \<not> selectable now (threads s u)"
    by (simp add: schedule_pass_None_iff)
  then show ?thesis using schedule_pass_none [OF ns] assms by simp
qed




subsection \<open>Sleeping: dosleep, msleep, absmsleep\<close>

lemma timed_out_word:
  "(f OR RUNNABLE_FLAG) AND THREAD_TIMEDOUT = f AND THREAD_TIMEDOUT"
  "(f AND NOT RUNNABLE_FLAG) AND THREAD_TIMEDOUT = f AND THREAD_TIMEDOUT"
  "(f OR THREAD_JOINED) AND THREAD_TIMEDOUT = f AND THREAD_TIMEDOUT"
  "(f AND NOT THREAD_MUSTJOIN) AND THREAD_TIMEDOUT = f AND THREAD_TIMEDOUT"
  "(f AND NOT THREAD_TIMEDOUT) AND THREAD_TIMEDOUT = 0"
  "(f OR THREAD_TIMEDOUT) AND THREAD_TIMEDOUT = THREAD_TIMEDOUT"
  "THREAD_TIMEDOUT \<noteq> 0"
  by (simp_all add: or_and_other and_not_and_other flag_disjoint and_not_and_same or_and_same)
    (simp add: THREAD_TIMEDOUT_def)

lemma timed_out_flags_update [simp]:
  "timed_out (th\<lparr>flags := f\<rparr>) = (f AND THREAD_TIMEDOUT \<noteq> 0)"
  "timed_out (th\<lparr>wakeup_time := w\<rparr>) = timed_out th"
  by (simp_all add: timed_out_def)

lemma timed_out_simps [simp]:
  "timed_out (wake_thread th) = timed_out th"
  "timed_out (block_thread th) = timed_out th"
  "timed_out (clear_runnable th) = timed_out th"
  "timed_out (set_runnable th) = timed_out th"
  "timed_out (timeout_wake th)"
  by (simp_all add: wake_thread_def block_thread_def clear_runnable_def set_runnable_def
      timeout_wake_def timed_out_word) (simp_all add: timed_out_def)

lemma not_timed_out_upd_thread:
  "\<not> timed_out (threads s th) \<Longrightarrow> (u = th \<Longrightarrow> \<not> timed_out (f (threads s th))) \<Longrightarrow>
   \<not> timed_out (threads (upd_thread u f s) th)"
  by auto






lemma fold_wake_fields [simp]:
  "thread_list (fold wake ws s) = thread_list s"
  "exited_threads (fold wake ws s) = exited_threads s"
  "joinwq (fold wake ws s) = joinwq s"
  "current (fold wake ws s) = current s"
  "domain_blocks (fold wake ws s) = domain_blocks s"
  by (induction ws arbitrary: s) (simp_all add: wake_def)


lemma entered_fields [simp]:
  "thread_list (entered ev wt s) = thread_list s"
  "exited_threads (entered ev wt s) = exited_threads s"
  "current (entered ev wt s) = current s"
  "domain_blocks (entered ev wt s) = domain_blocks s"
  by (simp_all add: entered_def hypervisor_callback_def dosleep_enter_def)


lemma schedule_pass_Some_fst:
  assumes "fst (schedule_pass now s) = Some t"
  shows "selectable now (threads s t) \<and> t \<in> set (thread_list s) \<and>
         fst (snd (schedule_pass now s)) =
           (upd_thread t (treat now) s)\<lparr>thread_list := remove1 t (thread_list s) @ [t]\<rparr>"
proof -
  have "schedule_pass now s = (Some t, fst (snd (schedule_pass now s)), snd (snd (schedule_pass now s)))"
    using assms by (metis prod.collapse)
  then show ?thesis by (rule schedule_pass_SomeD)
qed




text \<open>
  The loop of \<^verbatim>\<open>schedule\<close>, run by the sleeper itself, is a course of its sleep: when
  it ends it has gone through passes that found no thread, and the last pass chose.
\<close>

lemma schedule_select_course:
  assumes "slept th e s0" and "schedule_select w s0 = Some (t, s2)"
  shows "\<exists>s1 now. slept th e s1 \<and> current s1 = current s0 \<and>
           fst (schedule_pass now s1) = Some t \<and> fst (snd (schedule_pass now s1)) = s2"
  using assms
proof (induction w arbitrary: s0)
  case Nil
  then show ?case by simp
next
  case (Cons a w)
  obtain now ws where a: "a = (now, ws)" by (cases a) auto
  obtain r s1' mw where p: "schedule_pass now s0 = (r, s1', mw)"
    by (cases "schedule_pass now s0") auto
  show ?case
  proof (cases r)
    case None
    let ?s = "force_evtchn_callback ws (block_domain mw s1')"
    have sl: "slept th e ?s"
      using Cons.prems(1) p None by (auto intro: slept_idle)
    have "s1' = s0" using schedule_pass_NoneD p None by blast
    then have cur: "current ?s = current s0"
      by (simp add: force_evtchn_callback_def block_domain_def)
    have "schedule_select w ?s = Some (t, s2)"
      using Cons.prems(2) a p None by simp
    from Cons.IH [OF sl this] cur show ?thesis by auto
  next
    case (Some u)
    then have "u = t" and "s1' = s2" using Cons.prems(2) a p by simp_all
    then have "fst (schedule_pass now s0) = Some t" "fst (snd (schedule_pass now s0)) = s2"
      using p Some by simp_all
    then show ?thesis using Cons.prems(1) by blast
  qed
qed

lemma schedule_returns_to_itself:
  assumes "schedule_select w e = Some (current e, s2)"
  shows "\<exists>s1 now. slept (current e) e s1 \<and> fst (schedule_pass now s1) = Some (current e) \<and>
           schedule False False w resume e = Inr (resumed (current e) now s1)"
proof -
  obtain s1 now where c: "slept (current e) e s1" "current s1 = current e"
      "fst (schedule_pass now s1) = Some (current e)" "fst (snd (schedule_pass now s1)) = s2"
    using schedule_select_course [OF slept_start assms] by blast
  have "current s2 = current e"
    using schedule_pass_Some_fst [OF c(3)] c(2,4) by auto
  then have "s2\<lparr>current := current e\<rparr> = s2" by (cases s2) simp
  then have "schedule False False w resume e = Inr (resumed (current e) now s1)"
    using assms c(4) by (simp add: schedule_def resumed_def Let_def)
  then show ?thesis using c by blast
qed





lemma MILLISECS_zero [simp]: "MILLISECS 0 = 0"
  by (simp add: MILLISECS_def)







lemma dosleep_leave_fields [simp]:
  "thread_list (snd (dosleep_leave t s)) = thread_list s"
  "domain_blocks (snd (dosleep_leave t s)) = domain_blocks s"
  "threads (snd (dosleep_leave t s)) t = (threads s t)\<lparr>flags := flags (threads s t) AND NOT THREAD_TIMEDOUT\<rparr>"
  by (simp_all add: dosleep_leave_def)




section \<open>Properties of the block devices\<close>

subsection \<open>Device names\<close>

lemma devname2num_range:
  "devname2num name = - 1 \<or> (0 \<le> devname2num name \<and> devname2num name < 10)"
  by (simp add: devname2num_def NBLKDEV_def Let_def)

lemma devname2num_valid:
  assumes "devname2num name \<noteq> - 1"
  shows "name = ''blk'' @ [char_of (48 + devname2num name)]"
proof -
  from assms have t: "take 3 name = ''blk''" and l: "length name = 4"
    by (auto simp add: devname2num_def split: if_splits)
  from assms t l have n: "devname2num name = of_char (name ! 3) - 48"
    by (auto simp add: devname2num_def Let_def split: if_splits)
  have "drop 3 name = [name ! 3]"
    using l by (metis Cons_nth_drop_Suc drop_all eval_nat_numeral(2) lessI numeral_3_eq_3 order_refl semiring_norm(26,27) Suc_eq_plus1 add_2_eq_Suc' numeral_Bit0)
  then have "name = ''blk'' @ [name ! 3]"
    using t by (metis append_take_drop_id)
  moreover have "char_of (48 + devname2num name) = name ! 3"
    by (simp add: n)
  ultimately show ?thesis by simp
qed

lemma devname2num_blk:
  assumes "0 \<le> n" "n < 10"
  shows "devname2num (''blk'' @ [char_of (48 + n)]) = n"
proof -
  have "of_char (char_of (48 + n)) = (48 + n) mod 256" by (simp add: of_char_of)
  also have "\<dots> = 48 + n" using assms by simp
  finally show ?thesis using assms by (simp add: devname2num_def NBLKDEV_def)
qed

subsection \<open>rumpuser\_open\<close>

lemma rumpuser_open_enxio:
  "mode AND RUMPUSER_OPEN_BIO h = 0 \<or> devname2num name = - 1 \<Longrightarrow>
   rumpuser_open h backend name mode st = (ENXIO h, None, st)"
  by (simp add: rumpuser_open_def)

lemma rumpuser_open_success:
  assumes "fst (rumpuser_open h backend name mode st) = 0" and "ENXIO h \<noteq> 0"
    and "EROFS h \<noteq> 0"
  shows "mode AND RUMPUSER_OPEN_BIO h \<noteq> 0 \<and> devname2num name \<noteq> - 1 \<and>
         fst (snd (rumpuser_open h backend name mode st)) = Some (BLKFDOFF + devname2num name)"
proof -
  obtain rv st1 where d: "devopen h backend (devname2num name) st = (rv, st1)"
    by (cases "devopen h backend (devname2num name) st") auto
  have ok: "\<not> (mode AND RUMPUSER_OPEN_BIO h = 0 \<or> devname2num name = - 1)"
    using assms(1,2) by (auto simp add: rumpuser_open_def)
  have rv: "rv = 0"
    using assms(1) ok d by (auto simp add: rumpuser_open_def Let_def split: if_splits)
  show ?thesis
    using assms(1,3) ok d rv by (auto simp add: rumpuser_open_def Let_def split: if_splits)
qed

lemmas blk_defs = rumpuser_open_def devopen_def devname2num_def rumpuser_close_def
  shutdown_blkfront_def hdr0_def blk0_def backend0_def NBLKDEV_def BLKFDOFF_def

text \<open>
  Claim C8. For every name and mode, \<^verbatim>\<open>rumpuser_open\<close> returns \<open>ENXIO\<close>, stores no
  descriptor and changes nothing, unless the mode has the block-I/O flag and the name is
  \<^verbatim>\<open>blk\<close> followed by one decimal digit \<open>n\<close> (character code \<open>48 + n\<close>, \<open>n\<close> from 0 up
  to 10). With \<open>ENXIO\<close> and \<open>EROFS\<close> other than 0, a call that returns 0 was made with
  the flag and such a name, and stored \<open>64 + n\<close>: no other name opens.
\<close>

theorem rumpuser_open_only_blk_digit:
  "(\<not> (mode AND RUMPUSER_OPEN_BIO h \<noteq> 0 \<and>
        (\<exists>n::int. 0 \<le> n \<and> n < 10 \<and> name = ''blk'' @ [char_of (48 + n)])) \<longrightarrow>
      rumpuser_open h backend name mode st = (ENXIO h, None, st)) \<and>
   (ENXIO h \<noteq> 0 \<and> EROFS h \<noteq> 0 \<and> fst (rumpuser_open h backend name mode st) = 0 \<longrightarrow>
      mode AND RUMPUSER_OPEN_BIO h \<noteq> 0 \<and>
      (\<exists>n. 0 \<le> n \<and> n < 10 \<and> name = ''blk'' @ [char_of (48 + n)] \<and>
           fst (snd (rumpuser_open h backend name mode st)) = Some (64 + n)))"
proof (intro conjI impI)
  assume a: "\<not> (mode AND RUMPUSER_OPEN_BIO h \<noteq> 0 \<and>
        (\<exists>n::int. 0 \<le> n \<and> n < 10 \<and> name = ''blk'' @ [char_of (48 + n)]))"
  have "mode AND RUMPUSER_OPEN_BIO h = 0 \<or> devname2num name = - 1"
  proof (rule ccontr)
    assume "\<not> (mode AND RUMPUSER_OPEN_BIO h = 0 \<or> devname2num name = - 1)"
    then have b: "mode AND RUMPUSER_OPEN_BIO h \<noteq> 0" and v: "devname2num name \<noteq> - 1"
      by simp_all
    let ?n = "devname2num name"
    have 1: "0 \<le> ?n" and 2: "?n < 10"
      using devname2num_range [of name] v by simp_all
    have 3: "name = ''blk'' @ [char_of (48 + ?n)]"
      by (rule devname2num_valid [OF v])
    have "\<exists>n::int. 0 \<le> n \<and> n < 10 \<and> name = ''blk'' @ [char_of (48 + n)]"
      by (rule exI [of _ ?n]) (intro conjI 1 2 3)
    with b have "mode AND RUMPUSER_OPEN_BIO h \<noteq> 0 \<and>
        (\<exists>n::int. 0 \<le> n \<and> n < 10 \<and> name = ''blk'' @ [char_of (48 + n)])"
      by (rule conjI)
    with a show False by (rule notE)
  qed
  then show "rumpuser_open h backend name mode st = (ENXIO h, None, st)"
    by (rule rumpuser_open_enxio)
next
  assume a: "ENXIO h \<noteq> 0 \<and> EROFS h \<noteq> 0 \<and> fst (rumpuser_open h backend name mode st) = 0"
  then have a1: "fst (rumpuser_open h backend name mode st) = 0" and a2: "ENXIO h \<noteq> 0"
    and a3: "EROFS h \<noteq> 0" by simp_all
  have s: "mode AND RUMPUSER_OPEN_BIO h \<noteq> 0 \<and> devname2num name \<noteq> - 1 \<and>
         fst (snd (rumpuser_open h backend name mode st)) = Some (BLKFDOFF + devname2num name)"
    by (rule rumpuser_open_success [OF a1 a2 a3])
  then show "mode AND RUMPUSER_OPEN_BIO h \<noteq> 0" by (rule conjunct1)
  from s have v: "devname2num name \<noteq> - 1" by simp
  let ?n = "devname2num name"
  have 1: "0 \<le> ?n" and 2: "?n < 10"
    using devname2num_range [of name] v by simp_all
  have 3: "name = ''blk'' @ [char_of (48 + ?n)]"
    by (rule devname2num_valid [OF v])
  from s have fd: "fst (snd (rumpuser_open h backend name mode st)) = Some (64 + ?n)"
    by (simp add: BLKFDOFF_def)
  show "\<exists>n. 0 \<le> n \<and> n < 10 \<and> name = ''blk'' @ [char_of (48 + n)] \<and>
           fst (snd (rumpuser_open h backend name mode st)) = Some (64 + n)"
    by (rule exI [of _ ?n]) (intro conjI 1 2 3 fd)
qed

theorem rumpuser_open_only_blk_digit_witness:
  "rumpuser_open hdr0 backend0 ''blk10'' 0x10 blk0 = (ENXIO hdr0, None, blk0) \<and>
   ENXIO hdr0 \<noteq> 0 \<and> EROFS hdr0 \<noteq> 0 \<and>
   fst (rumpuser_open hdr0 backend0 ''blk1'' 0x12 blk0) = 0 \<and>
   fst (snd (rumpuser_open hdr0 backend0 ''blk1'' 0x12 blk0)) = Some 65"
proof -
  have "\<not> (\<exists>n::int. ''blk10'' = ''blk'' @ [char_of (48 + n)])" by simp
  then have h1: "\<not> ((0x10::int) AND RUMPUSER_OPEN_BIO hdr0 \<noteq> 0 \<and>
        (\<exists>n::int. 0 \<le> n \<and> n < 10 \<and> ''blk10'' = ''blk'' @ [char_of (48 + n)]))" by blast
  have a: "rumpuser_open hdr0 backend0 ''blk10'' 0x10 blk0 = (ENXIO hdr0, None, blk0)"
    using rumpuser_open_only_blk_digit [of "0x10" hdr0 "''blk10''" backend0 blk0] h1 by blast
  have h2: "ENXIO hdr0 \<noteq> 0 \<and> EROFS hdr0 \<noteq> 0 \<and>
    fst (rumpuser_open hdr0 backend0 ''blk1'' 0x12 blk0) = 0"
    by (simp add: blk_defs)
  have b: "fst (snd (rumpuser_open hdr0 backend0 ''blk1'' 0x12 blk0)) = Some 65"
    by (simp add: blk_defs)
  show ?thesis using a h2 b by blast
qed

text \<open>
  Claim C1 fails on the code. A first open of \<^verbatim>\<open>blk0\<close> for writing, on a backend that
  opens the device read-only, returns \<open>EROFS\<close> with the refcount raised from 0 to 1 and
  the handle still in the slot: the code says \<^verbatim>\<open>/* XXX: unopen */\<close> and does not undo
  \<^verbatim>\<open>devopen\<close>. And a second open of an open slot returns 1, which the caller takes for
  an error, after \<^verbatim>\<open>devopen\<close> has raised the refcount to 2.
\<close>

theorem rumpuser_open_failure_keeps_refcount_bumped:
  "fst (rumpuser_open hdr0 backend0 ''blk0'' 0x11 blk0) = EROFS hdr0 \<and> EROFS hdr0 = 30 \<and>
   blkopen blk0 0 = 0 \<and> blkdevs blk0 0 = None \<and>
   blkopen (snd (snd (rumpuser_open hdr0 backend0 ''blk0'' 0x11 blk0))) 0 = 1 \<and>
   blkdevs (snd (snd (rumpuser_open hdr0 backend0 ''blk0'' 0x11 blk0))) 0 = Some 7 \<and>
   fst (rumpuser_open hdr0 backend0 ''blk1'' 0x10 blk0) = 0 \<and>
   fst (rumpuser_open hdr0 backend0 ''blk1'' 0x10
     (snd (snd (rumpuser_open hdr0 backend0 ''blk1'' 0x10 blk0)))) = 1 \<and>
   blkopen (snd (snd (rumpuser_open hdr0 backend0 ''blk1'' 0x10 blk0))) 1 = 1 \<and>
   blkopen (snd (snd (rumpuser_open hdr0 backend0 ''blk1'' 0x10
     (snd (snd (rumpuser_open hdr0 backend0 ''blk1'' 0x10 blk0)))))) 1 = 2"
  by (simp add: blk_defs)

subsection \<open>rumpuser\_close\<close>

text \<open>
  Claim C9. \<^verbatim>\<open>rumpuser_close\<close> returns \<open>EBADF\<close> and changes nothing when \<open>fd - 64\<close> is
  below 0 or at least 10. Otherwise it returns 0, whether the slot was opened or not,
  and lowers the slot's refcount by one, whatever its value; when the lowered refcount
  is 0 it sets the slot's handle to NULL and then calls \<^verbatim>\<open>shutdown_blkfront\<close> on the
  handle it had saved; when it is not 0 it does neither. With \<open>EBADF\<close> other than 0,
  the return value is \<open>EBADF\<close> exactly for the descriptors out of range.
\<close>

theorem rumpuser_close_refcount:
  "(fd - 64 < 0 \<or> 10 \<le> fd - 64 \<longrightarrow> rumpuser_close h fd st = (EBADF h, st)) \<and>
   (0 \<le> fd - 64 \<and> fd - 64 < 10 \<longrightarrow>
      fst (rumpuser_close h fd st) = 0 \<and>
      snd (rumpuser_close h fd st) =
        (if blkopen st (fd - 64) - 1 = 0
         then shutdown_blkfront (blkdevs st (fd - 64))
                (st\<lparr>blkopen := (blkopen st)(fd - 64 := blkopen st (fd - 64) - 1),
                    blkdevs := (blkdevs st)(fd - 64 := None)\<rparr>)
         else st\<lparr>blkopen := (blkopen st)(fd - 64 := blkopen st (fd - 64) - 1)\<rparr>) \<and>
      blkopen (snd (rumpuser_close h fd st)) (fd - 64) = blkopen st (fd - 64) - 1) \<and>
   (EBADF h \<noteq> 0 \<longrightarrow>
      (fst (rumpuser_close h fd st) = EBADF h \<longleftrightarrow> fd - 64 < 0 \<or> 10 \<le> fd - 64))"
  by (auto simp add: rumpuser_close_def NBLKDEV_def BLKFDOFF_def Let_def shutdown_blkfront_def)

theorem rumpuser_close_refcount_witness:
  "rumpuser_close hdr0 74 blk0 = (9, blk0) \<and>
   rumpuser_close hdr0 63 blk0 = (9, blk0) \<and>
   fst (rumpuser_close hdr0 64 blk0) = 0 \<and>
   blkopen (snd (rumpuser_close hdr0 64 blk0)) 0 = - 1 \<and>
   calls (snd (rumpuser_close hdr0 64 blk0)) = [] \<and>
   calls (snd (rumpuser_close hdr0 65
     (snd (snd (rumpuser_open hdr0 backend0 ''blk1'' 0x10 blk0))))) =
     [Init_blkfront 832, Shutdown_blkfront (Some 8)] \<and>
   blkdevs (snd (rumpuser_close hdr0 65
     (snd (snd (rumpuser_open hdr0 backend0 ''blk1'' 0x10 blk0))))) 1 = None"
  using rumpuser_close_refcount [of 74 hdr0 blk0] rumpuser_close_refcount [of 63 hdr0 blk0]
    rumpuser_close_refcount [of 64 hdr0 blk0]
    rumpuser_close_refcount [of 65 hdr0 "snd (snd (rumpuser_open hdr0 backend0 ''blk1'' 0x10 blk0))"]
  by (simp add: blk_defs)

subsection \<open>The accounting of outstanding requests\<close>

lemma sum_fun_upd:
  assumes "finite A" and "n \<in> A"
  shows "sum (f(n := v)) A = sum f A - f n + (v::int)"
proof -
  have 1: "sum (f(n := v)) A = v + sum (f(n := v)) (A - {n})"
    using assms by (simp add: sum.remove)
  have 2: "sum (f(n := v)) (A - {n}) = sum f (A - {n})"
    by (rule sum.cong) auto
  have 3: "sum f A = f n + sum f (A - {n})"
    using assms by (simp add: sum.remove)
  show ?thesis using 1 2 3 by simp
qed

lemma slots_sum_upd:
  "0 \<le> n \<Longrightarrow> n < NBLKDEV \<Longrightarrow>
   (\<Sum>i = 0..<NBLKDEV. if i = n then v else f i) = (\<Sum>i = 0..<NBLKDEV. f i) - f n + (v::int)"
  using sum_fun_upd [of "{0..<NBLKDEV}" n f v] by (simp add: fun_upd_def)

lemmas bio_step_defs = rumpuser_mutex_enter_def rumpuser_mutex_exit_def record_call_def

lemma rumpuser_bio_trace_inv:
  assumes "bio_inv st" and "\<not> bio_mtx_held st" and "0 \<le> fd - BLKFDOFF" and "fd - BLKFDOFF < NBLKDEV"
  shows "\<forall>s\<in>set (trace (rumpuser_bio_steps h fd op data dlen off biodone donearg) st). bio_inv s"
  using assms
  by (cases "bio_inited st")
    (simp_all add: rumpuser_bio_steps_def Let_def bio_inv_def bio_step_defs slots_sum_upd)

lemma rumpuser_bio_result:
  assumes "\<not> bio_mtx_held st"
  shows "rumpuser_bio h fd op data dlen off biodone donearg st =
     st\<lparr>bio_inited := True,
        calls := calls st @ (if bio_inited st then [] else [Create_thread_biopoll]) @
          [let bio = \<lparr>bio_num = fd - BLKFDOFF, bio_done = biodone, bio_arg = donearg,
                 aio_dev = blkdevs st (fd - BLKFDOFF), aio_buf = data, aio_nbytes = dlen,
                 aio_offset = off\<rparr>
           in if op AND RUMPUSER_BIO_READ h \<noteq> 0 then Blkfront_aio_read bio
              else Blkfront_aio_write bio, Cv_signal],
        bio_outstanding_total := bio_outstanding_total st + 1,
        blkdev_outstanding := (blkdev_outstanding st)
          (fd - BLKFDOFF := blkdev_outstanding st (fd - BLKFDOFF) + 1),
        bio_mtx_held := False\<rparr>"
  using assms
  by (cases "bio_inited st")
    (simp_all add: rumpuser_bio_def rumpuser_bio_steps_def Let_def bio_step_defs)

lemma biocomp_trace_inv:
  assumes "bio_inv st" and "\<not> bio_mtx_held st" and "0 \<le> bio_num bio" and "bio_num bio < NBLKDEV"
  shows "\<forall>s\<in>set (trace (biocomp_steps h bio ret) st). bio_inv s"
  using assms
  by (simp add: biocomp_steps_def Let_def bio_inv_def bio_step_defs slots_sum_upd)

lemma trace_not_Nil: "trace p st \<noteq> []"
  by (induction p st rule: trace.induct) simp_all

lemma last_trace_in: "last (trace p st) \<in> set (trace p st)"
  by (simp add: trace_not_Nil)

text \<open>
  Claim C7. The initial state has the total equal to the sum of the slots' counters.
  Started outside the mutex in a state where they agree, \<^verbatim>\<open>rumpuser_bio\<close> on a
  descriptor of a slot, and \<^verbatim>\<open>biocomp\<close> on a request of a slot, go only through states
  in which the mutex is held or the total equals the sum; they end outside the mutex,
  having raised (lowered) both the total and the slot's counter by one.
\<close>

theorem bio_total_is_sum_of_slots:
  "bio_inv blk0 \<and>
   (bio_inv st \<and> \<not> bio_mtx_held st \<and> 0 \<le> fd - 64 \<and> fd - 64 < 10 \<longrightarrow>
      (\<forall>s\<in>set (trace (rumpuser_bio_steps h fd op data dlen off biodone donearg) st).
         \<not> bio_mtx_held s \<longrightarrow>
         bio_outstanding_total s = (\<Sum>i = 0..<10. blkdev_outstanding s i)) \<and>
      \<not> bio_mtx_held (rumpuser_bio h fd op data dlen off biodone donearg st) \<and>
      bio_outstanding_total (rumpuser_bio h fd op data dlen off biodone donearg st) =
        bio_outstanding_total st + 1 \<and>
      blkdev_outstanding (rumpuser_bio h fd op data dlen off biodone donearg st) (fd - 64) =
        blkdev_outstanding st (fd - 64) + 1) \<and>
   (bio_inv st \<and> \<not> bio_mtx_held st \<and> 0 \<le> bio_num bio \<and> bio_num bio < 10 \<longrightarrow>
      (\<forall>s\<in>set (trace (biocomp_steps h bio ret) st).
         \<not> bio_mtx_held s \<longrightarrow>
         bio_outstanding_total s = (\<Sum>i = 0..<10. blkdev_outstanding s i)) \<and>
      \<not> bio_mtx_held (biocomp h bio ret st) \<and>
      bio_outstanding_total (biocomp h bio ret st) = bio_outstanding_total st - 1 \<and>
      blkdev_outstanding (biocomp h bio ret st) (bio_num bio) =
        blkdev_outstanding st (bio_num bio) - 1)"
proof (intro conjI impI)
  show "bio_inv blk0" by (simp add: bio_inv_def blk0_def)
next
  assume a: "bio_inv st \<and> \<not> bio_mtx_held st \<and> 0 \<le> fd - 64 \<and> fd - 64 < 10"
  then have "\<forall>s\<in>set (trace (rumpuser_bio_steps h fd op data dlen off biodone donearg) st). bio_inv s"
    by (intro rumpuser_bio_trace_inv) (simp_all add: BLKFDOFF_def NBLKDEV_def)
  then show "\<forall>s\<in>set (trace (rumpuser_bio_steps h fd op data dlen off biodone donearg) st).
         \<not> bio_mtx_held s \<longrightarrow>
         bio_outstanding_total s = (\<Sum>i = 0..<10. blkdev_outstanding s i)"
    by (simp add: bio_inv_def NBLKDEV_def)
  have r: "\<not> bio_mtx_held st" using a by simp
  show "\<not> bio_mtx_held (rumpuser_bio h fd op data dlen off biodone donearg st)"
    by (simp add: rumpuser_bio_result [OF r])
  show "bio_outstanding_total (rumpuser_bio h fd op data dlen off biodone donearg st) =
        bio_outstanding_total st + 1"
    by (simp add: rumpuser_bio_result [OF r])
  show "blkdev_outstanding (rumpuser_bio h fd op data dlen off biodone donearg st) (fd - 64) =
        blkdev_outstanding st (fd - 64) + 1"
    by (simp add: rumpuser_bio_result [OF r] BLKFDOFF_def)
next
  assume a: "bio_inv st \<and> \<not> bio_mtx_held st \<and> 0 \<le> bio_num bio \<and> bio_num bio < 10"
  then have "\<forall>s\<in>set (trace (biocomp_steps h bio ret) st). bio_inv s"
    by (intro biocomp_trace_inv) (simp_all add: NBLKDEV_def)
  then show "\<forall>s\<in>set (trace (biocomp_steps h bio ret) st).
         \<not> bio_mtx_held s \<longrightarrow>
         bio_outstanding_total s = (\<Sum>i = 0..<10. blkdev_outstanding s i)"
    by (simp add: bio_inv_def NBLKDEV_def)
  show "\<not> bio_mtx_held (biocomp h bio ret st)"
    by (simp add: biocomp_def biocomp_steps_def Let_def bio_step_defs)
  show "bio_outstanding_total (biocomp h bio ret st) = bio_outstanding_total st - 1"
    by (simp add: biocomp_def biocomp_steps_def Let_def bio_step_defs)
  show "blkdev_outstanding (biocomp h bio ret st) (bio_num bio) =
        blkdev_outstanding st (bio_num bio) - 1"
    by (simp add: biocomp_def biocomp_steps_def Let_def bio_step_defs)
qed

theorem bio_total_is_sum_of_slots_witness:
  "bio_inv blk0 \<and> \<not> bio_mtx_held blk0 \<and> (0::int) \<le> 64 - 64 \<and> (64::int) - 64 < 10 \<and>
   bio_outstanding_total (rumpuser_bio hdr0 64 1 0 512 0 0 0 blk0) = 1 \<and>
   blkdev_outstanding (rumpuser_bio hdr0 64 1 0 512 0 0 0 blk0) 0 = 1 \<and>
   bio_inv (rumpuser_bio hdr0 64 1 0 512 0 0 0 blk0) \<and>
   bio_outstanding_total (biocomp hdr0 bio0 0 (rumpuser_bio hdr0 64 1 0 512 0 0 0 blk0)) = 0 \<and>
   blkdev_outstanding (biocomp hdr0 bio0 0 (rumpuser_bio hdr0 64 1 0 512 0 0 0 blk0)) 0 = 0 \<and>
   calls (biocomp hdr0 bio0 0 (rumpuser_bio hdr0 64 1 0 512 0 0 0 blk0)) =
     [Create_thread_biopoll, Blkfront_aio_read bio0, Cv_signal, Biodone 0 0 512 0]"
proof -
  let ?s = "rumpuser_bio hdr0 64 1 0 512 0 0 0 blk0"
  have i0: "bio_inv blk0" and h0: "\<not> bio_mtx_held blk0"
    by (simp_all add: bio_inv_def blk0_def)
  have s: "?s = blk0\<lparr>bio_inited := True,
      calls := [Create_thread_biopoll, Blkfront_aio_read bio0, Cv_signal],
      bio_outstanding_total := 1, blkdev_outstanding := (\<lambda>_. 0)(0 := 1),
      bio_mtx_held := False\<rparr>"
    unfolding rumpuser_bio_result [OF h0]
    by (simp add: BLKFDOFF_def blk0_def hdr0_def bio0_def)
  have i1: "bio_inv ?s"
    unfolding s by (simp add: bio_inv_def NBLKDEV_def blk0_def)
  have h1: "\<not> bio_mtx_held ?s" unfolding s by simp
  have a: "bio_outstanding_total ?s = 1 \<and> blkdev_outstanding ?s 0 = 1"
    using bio_total_is_sum_of_slots [where st = blk0 and fd = 64 and h = hdr0 and op = 1
        and data = 0 and dlen = 512 and off = 0 and biodone = 0 and donearg = 0
        and bio = bio0 and ret = 0] i0 h0
    by (simp add: blk0_def)
  have b: "bio_outstanding_total (biocomp hdr0 bio0 0 ?s) = 0 \<and>
           blkdev_outstanding (biocomp hdr0 bio0 0 ?s) 0 = 0"
    using bio_total_is_sum_of_slots [where st = ?s and fd = 64 and h = hdr0 and op = 1
        and data = 0 and dlen = 512 and off = 0 and biodone = 0 and donearg = 0
        and bio = bio0 and ret = 0] i1 h1 a
    by (simp add: bio0_def)
  have c: "calls (biocomp hdr0 bio0 0 ?s) =
     [Create_thread_biopoll, Blkfront_aio_read bio0, Cv_signal, Biodone 0 0 512 0]"
    unfolding s
    by (simp add: biocomp_def biocomp_steps_def Let_def bio_step_defs bio0_def blk0_def)
  show ?thesis using i0 h0 i1 a b c by simp
qed

end
